theory Spec2Isabelle
  imports Main
begin

section \<open>Bytes, runes and decimal numerals\<close>

text \<open>
  Go strings and byte slices are modelled as \<^typ>\<open>string\<close> (a list of 8-bit characters).
  A Go \<open>rune\<close> is an \<open>int32\<close> code point, modelled as \<^typ>\<open>int\<close>.
  Cursor coordinates and heights are Go \<open>int\<close>s, 64 bits wide, whose arithmetic wraps
  around. They are kept as \<^typ>\<open>int\<close>, and \<open>wrapInt\<close>, the two's complement value in
  64 bits, is written out around every sum, difference and negation of the source that
  can leave the range from \<open>minInt\<close> to \<open>maxInt\<close>.
\<close>

definition maxInt :: int where
  "maxInt = 9223372036854775807"

definition minInt :: int where
  "minInt = - 9223372036854775808"

definition wrapInt :: "int \<Rightarrow> int" where
  "wrapInt i = (i + 9223372036854775808) mod 18446744073709551616 - 9223372036854775808"

definition isInt :: "int \<Rightarrow> bool" where
  "isInt i = (minInt \<le> i \<and> i \<le> maxInt)"

definition ESC :: char where
  "ESC = CHR 0x1B"

definition LF :: char where
  "LF = CHR 0x0A"

text \<open>\<open>strconv.Itoa\<close>: the decimal numeral of an integer.\<close>

definition digitChar :: "nat \<Rightarrow> char" where
  "digitChar d = char_of (48 + d)"

fun natDigits :: "nat \<Rightarrow> string" where
  "natDigits n = (if n < 10 then [digitChar n] else natDigits (n div 10) @ [digitChar (n mod 10)])"

declare natDigits.simps [simp del]

definition Itoa :: "int \<Rightarrow> string" where
  "Itoa i = (if i < 0 then CHR ''-'' # natDigits (nat (- i)) else natDigits (nat i))"

text \<open>
  \<open>string(r)\<close> for a rune \<open>r\<close>: the UTF-8 encoding of the code point, with the
  replacement character U+FFFD for a surrogate or a value outside the Unicode range.
\<close>

definition runeToString :: "int \<Rightarrow> string" where
  "runeToString r =
     (if r < 0 \<or> 0x10FFFF < r \<or> (0xD800 \<le> r \<and> r \<le> 0xDFFF)
        then [char_of (0xEF::int), char_of (0xBF::int), char_of (0xBD::int)]
      else if r < 0x80 then [char_of r]
      else if r < 0x800 then [char_of (0xC0 + r div 64), char_of (0x80 + r mod 64)]
      else if r < 0x10000 then
        [char_of (0xE0 + r div 4096), char_of (0x80 + (r div 64) mod 64), char_of (0x80 + r mod 64)]
      else
        [char_of (0xF0 + r div 262144), char_of (0x80 + (r div 4096) mod 64),
         char_of (0x80 + (r div 64) mod 64), char_of (0x80 + r mod 64)])"

section \<open>Errors\<close>

text \<open>
  \<open>DoubleEnd\<close> is the \<open>log.Panicln("Screen.End() called twice")\<close> of \<open>End\<close>;
  \<open>IndexOutOfRange\<close> is Go's run-time panic of a slice index outside the slice;
  \<open>FatalLog\<close> is \<open>log.Fatal\<close>, which exits the program.
\<close>

datatype error = DoubleEnd | IndexOutOfRange | FatalLog

definition bindE :: "error + 'a \<Rightarrow> ('a \<Rightarrow> error + 'b) \<Rightarrow> error + 'b" where
  "bindE m f = (case m of Inl e \<Rightarrow> Inl e | Inr x \<Rightarrow> f x)"

section \<open>The foreground scheduler's exit code (main.go)\<close>

text \<open>
  What \<open>proc.wait()\<close> gives \<open>toForeground\<close>: no error, an \<open>*exec.ExitError\<close> with its
  exit code, or another error.
\<close>

datatype WaitResult = WaitNil | WaitExitError int | WaitOtherError

text \<open>
  \<open>toForeground\<close>, after the output has been written out: the exit code of an
  \<open>ExitError\<close>, \<open>log.Fatal\<close> on another error, 0 otherwise.
\<close>

definition toForeground :: "WaitResult \<Rightarrow> error + int" where
  "toForeground w = (case w of
       WaitExitError c \<Rightarrow> Inr c
     | WaitOtherError \<Rightarrow> Inl FatalLog
     | WaitNil \<Rightarrow> Inr 0)"

text \<open>
  The loop of \<open>start\<close> over the channel of process results, in the order the channel
  delivers them. \<open>exitCode\<close> is the named result, initially 0. With
  \<open>flKeepGoingOnError\<close> unset the loop breaks as soon as \<open>exitCode\<close> is not 0.
\<close>

fun startLoop :: "bool \<Rightarrow> int \<Rightarrow> WaitResult list \<Rightarrow> error + int" where
  "startLoop flKeepGoingOnError exitCode [] = Inr exitCode"
| "startLoop flKeepGoingOnError exitCode (p # ps) =
     (case toForeground p of
        Inl e \<Rightarrow> Inl e
      | Inr c \<Rightarrow>
          (let exitCode' = max exitCode c in
           if \<not> flKeepGoingOnError \<and> exitCode' \<noteq> 0 then Inr exitCode'
           else startLoop flKeepGoingOnError exitCode' ps))"

definition start :: "bool \<Rightarrow> WaitResult list \<Rightarrow> error + int" where
  "start flKeepGoingOnError ps = startLoop flKeepGoingOnError 0 ps"

text \<open>
  The process results the loop of \<open>start\<close> brings to the foreground: all of them, or,
  with \<open>flKeepGoingOnError\<close> unset, those up to and including the first one that makes
  the exit code differ from 0.
\<close>

fun promoted :: "bool \<Rightarrow> int \<Rightarrow> WaitResult list \<Rightarrow> WaitResult list" where
  "promoted flKeepGoingOnError exitCode [] = []"
| "promoted flKeepGoingOnError exitCode (p # ps) =
     (case toForeground p of
        Inl e \<Rightarrow> [p]
      | Inr c \<Rightarrow>
          (let exitCode' = max exitCode c in
           if \<not> flKeepGoingOnError \<and> exitCode' \<noteq> 0 then [p]
           else p # promoted flKeepGoingOnError exitCode' ps))"

text \<open>The exit status \<open>toForeground\<close> returns for a child that does not end in \<open>log.Fatal\<close>.\<close>

definition exitStatus :: "WaitResult \<Rightarrow> int" where
  "exitStatus w = (case w of WaitExitError c \<Rightarrow> c | WaitOtherError \<Rightarrow> 0 | WaitNil \<Rightarrow> 0)"

definition noFatal :: "WaitResult list \<Rightarrow> bool" where
  "noFatal ps = (WaitOtherError \<notin> set ps)"

section \<open>Cells and lines\<close>

text \<open>
  The type parameter \<open>'g\<close> stands for \<open>SelectGraphicRenditionAttribute\<close>, whose
  declaration and methods are not among the sources. The functions of it that the
  screen calls are parameters of the model, collected in \<open>SGRFuns\<close>:
  \<open>sgr.toCSI()\<close>, \<open>character.addSGR(sgr)\<close> as a function on the cell's attribute
  list, \<open>sgr.isUnsetAll()\<close> and \<open>sgr.addToSGRAttributeList(&list)\<close> on a list that
  may be \<open>nil\<close> (\<open>None\<close>).
\<close>

record 'g SGRFuns =
  toCSI :: "'g \<Rightarrow> string"
  addSGR :: "'g \<Rightarrow> 'g list \<Rightarrow> 'g list"
  isUnsetAll :: "'g \<Rightarrow> bool"
  addToSGRAttributeList :: "'g \<Rightarrow> 'g list option \<Rightarrow> 'g list option"

text \<open>
  Modelled from the spec: the struct \<open>Character\<close> is declared in a file that is not
  among the sources; screen.go uses its fields \<open>rune\<close>, \<open>sgr\<close> and
  \<open>extraEscapeSequences\<close>. A cell holds a Unicode scalar, an ordered list of SGR
  attributes and an auxiliary string of unhandled escape sequences.
\<close>

record 'g Character =
  rune :: int
  sgr :: "'g list"
  extraEscapeSequences :: string

text \<open>Go's zero value \<open>Character{}\<close>.\<close>

definition zeroCharacter :: "'g Character" where
  "zeroCharacter = \<lparr>rune = 0, sgr = [], extraEscapeSequences = []\<rparr>"

text \<open>
  Modelled from the spec: the default cell a line is extended with is a space with an
  empty SGR list and an empty auxiliary string.
\<close>

definition defaultCharacter :: "'g Character" where
  "defaultCharacter = \<lparr>rune = 0x20, sgr = [], extraEscapeSequences = []\<rparr>"

definition isDefaultCharacter :: "'g Character \<Rightarrow> bool" where
  "isDefaultCharacter c = (rune c = 0x20 \<and> sgr c = [] \<and> extraEscapeSequences c = [])"

text \<open>
  Modelled from the spec: \<open>Character.clearSGR\<close> is not among the sources; it leaves the
  cell with the empty attribute list.
\<close>

definition clearSGR :: "'g Character \<Rightarrow> 'g Character" where
  "clearSGR c = c\<lparr>sgr := []\<rparr>"

text \<open>
  Modelled from the spec: the struct \<open>Line\<close> and its methods are not among the sources;
  screen.go uses the field \<open>characters\<close>. A line is an ordered sequence of cells
  indexed from 0, and \<open>NewLine\<close> is the empty line.
\<close>

record 'g Line =
  characters :: "'g Character list"

definition NewLine :: "'g Line" where
  "NewLine = \<lparr>characters = []\<rparr>"

text \<open>
  Modelled from the spec: \<open>Line.characterAt(x)\<close> is not among the sources. Reading or
  writing at a position \<open>x\<close> at or beyond the current length extends the line with
  default cells up to \<open>x\<close> inclusive. The Go method returns a pointer to the cell;
  here \<open>characterAt\<close> gives the line after the extension, \<open>cellAt\<close> reads through
  the pointer and \<open>storeAt\<close> writes through it. A negative \<open>x\<close> is an index outside
  the slice.
\<close>

definition padTo :: "'g Character list \<Rightarrow> nat \<Rightarrow> 'g Character list" where
  "padTo cs n = cs @ replicate (n - length cs) defaultCharacter"

definition characterAt :: "'g Line \<Rightarrow> int \<Rightarrow> error + 'g Line" where
  "characterAt l x =
     (if x < 0 then Inl IndexOutOfRange
      else Inr (l\<lparr>characters := padTo (characters l) (Suc (nat x))\<rparr>))"

definition cellAt :: "'g Line \<Rightarrow> int \<Rightarrow> 'g Character" where
  "cellAt l x = characters l ! nat x"

definition storeAt :: "'g Line \<Rightarrow> int \<Rightarrow> 'g Character \<Rightarrow> 'g Line" where
  "storeAt l x c = l\<lparr>characters := (characters l)[nat x := c]\<rparr>"

text \<open>
  Modelled from the spec: \<open>Line.lengthWithoutTrailingSpacesAndEmptyRunes\<close> is not among
  the sources; the spec describes it as the length of the line without its trailing
  default cells.
\<close>

definition lengthWithoutTrailingSpacesAndEmptyRunes :: "'g Line \<Rightarrow> int" where
  "lengthWithoutTrailingSpacesAndEmptyRunes l =
     int (length (dropWhile isDefaultCharacter (rev (characters l))))"

section \<open>The screen (terminalscreen/screen.go)\<close>

text \<open>
  The struct \<open>Screen\<close>. Its field \<open>parser\<close> belongs to the escape-sequence parser,
  which is not among the sources, and is left out. \<open>currentSGRs\<close> is a slice that is
  \<open>nil\<close> (\<open>None\<close>) until the first attribute is selected.
\<close>

record 'g Screen =
  lines :: "'g Line list"
  desiredWidth :: int
  maxHeight :: int
  positionX :: int
  positionY :: int
  Ended :: bool
  QueuedScrollbackOutput :: string
  currentSGRs :: "'g list option"

definition NewScreen :: "int \<Rightarrow> int \<Rightarrow> 'g Screen" where
  "NewScreen width height =
     \<lparr>lines = [NewLine],
      desiredWidth = (if width \<le> 0 then 1 else width),
      maxHeight = (if height \<le> 0 then 1 else height),
      positionX = 0, positionY = 0, Ended = False,
      QueuedScrollbackOutput = [], currentSGRs = None\<rparr>"

definition Resize :: "int \<Rightarrow> int \<Rightarrow> 'g Screen \<Rightarrow> 'g Screen" where
  "Resize width height s = s"

definition currentLine :: "'g Screen \<Rightarrow> error + 'g Line" where
  "currentLine s =
     (if 0 \<le> positionY s \<and> positionY s < int (length (lines s))
      then Inr (lines s ! nat (positionY s)) else Inl IndexOutOfRange)"

definition currentScreenHeight :: "'g Screen \<Rightarrow> int" where
  "currentScreenHeight s = int (length (lines s))"

definition appendToScrollback :: "string \<Rightarrow> 'g Screen \<Rightarrow> 'g Screen" where
  "appendToScrollback str s = s\<lparr>QueuedScrollbackOutput := QueuedScrollbackOutput s @ str\<rparr>"

definition resetSGR :: string where
  "resetSGR = ESC # ''[0m''"

text \<open>
  The loop of \<open>sendLineToScrollbackBuffer\<close> over the cells of the line. It threads the
  loop's variables \<open>previousCharacter\<close> and \<open>didSetSGR\<close> and the screen, of which only
  the queued output changes. \<open>SGRList.equals\<close> is not among the sources; the spec gives
  it as positional equality of the two lists.
\<close>

fun sendCharacters ::
  "'g SGRFuns \<Rightarrow> 'g Character list \<Rightarrow> 'g Character \<Rightarrow> bool \<Rightarrow> 'g Screen \<Rightarrow> bool \<times> 'g Screen" where
  "sendCharacters F [] previousCharacter didSetSGR s = (didSetSGR, s)"
| "sendCharacters F (character # cs) previousCharacter didSetSGR s =
     (let s1 = appendToScrollback (extraEscapeSequences character) s in
      if sgr character \<noteq> sgr previousCharacter then
        (let s2 = appendToScrollback resetSGR s1;
             s3 = fold (\<lambda>g. appendToScrollback (toCSI F g)) (sgr character) s2;
             s4 = appendToScrollback (runeToString (rune character)) s3
         in sendCharacters F cs character True s4)
      else
        (let s4 = appendToScrollback (runeToString (rune character)) s1
         in sendCharacters F cs character didSetSGR s4))"

definition sendLineToScrollbackBuffer :: "'g SGRFuns \<Rightarrow> 'g Line \<Rightarrow> 'g Screen \<Rightarrow> 'g Screen" where
  "sendLineToScrollbackBuffer F line s =
     (let s1 = (if length (QueuedScrollbackOutput s) > 0 then appendToScrollback [LF] s else s);
          r = sendCharacters F (characters line) zeroCharacter False s1
      in if fst r then appendToScrollback resetSGR (snd r) else snd r)"

text \<open>The two cursor movements at the end of \<open>End\<close> have the same shape.\<close>

definition cursorMove :: "char \<Rightarrow> char \<Rightarrow> int \<Rightarrow> 'g Screen \<Rightarrow> 'g Screen" where
  "cursorMove forward backward moveBy s =
     (if moveBy > 0 then appendToScrollback (ESC # CHR ''['' # Itoa moveBy @ [forward]) s
      else if moveBy < 0 then
        appendToScrollback (ESC # CHR ''['' # Itoa (wrapInt (- moveBy)) @ [backward]) s
      else s)"

definition End :: "'g SGRFuns \<Rightarrow> 'g Screen \<Rightarrow> error + 'g Screen" where
  "End F s =
     (if Ended s then Inl DoubleEnd
      else
        (let s1 = s\<lparr>Ended := True\<rparr>;
             s2 = fold (sendLineToScrollbackBuffer F) (lines s1) s1
         in bindE (currentLine s2) (\<lambda>cl.
              (let moveRightBy =
                     wrapInt (lengthWithoutTrailingSpacesAndEmptyRunes cl - positionX s2);
                   s3 = cursorMove CHR ''C'' CHR ''D'' moveRightBy s2;
                   moveDownBy = wrapInt (wrapInt (currentScreenHeight s3 - positionY s3) - 1);
                   s4 = cursorMove CHR ''B'' CHR ''A'' moveDownBy s3
               in Inr (s4\<lparr>lines := []\<rparr>)))))"

text \<open>
  In \<open>nextLine\<close> and \<open>prevLine\<close> nothing can wrap: the length of a slice is at least 0
  and at most \<open>maxInt\<close>, the row is incremented only when it is below the length minus
  1, and decremented only when it is above 0.
\<close>

definition nextLine :: "'g SGRFuns \<Rightarrow> 'g Screen \<Rightarrow> error + 'g Screen" where
  "nextLine F s =
     (let s1 = (if positionY s < currentScreenHeight s - 1
                then s\<lparr>positionY := positionY s + 1\<rparr>
                else s\<lparr>lines := lines s @ [NewLine]\<rparr>)
      in if currentScreenHeight s1 > maxHeight s1 then
           (case lines s1 of
              [] \<Rightarrow> Inl IndexOutOfRange
            | l # rest \<Rightarrow> Inr ((sendLineToScrollbackBuffer F l s1)\<lparr>lines := rest\<rparr>))
         else Inr s1)"

definition prevLine :: "'g Screen \<Rightarrow> 'g Screen" where
  "prevLine s = (if positionY s \<le> 0 then s else s\<lparr>positionY := positionY s - 1\<rparr>)"

definition nextCharacter :: "'g Screen \<Rightarrow> 'g Screen" where
  "nextCharacter s = s\<lparr>positionX := wrapInt (positionX s + 1)\<rparr>"

definition prevCharacter :: "'g Screen \<Rightarrow> 'g Screen" where
  "prevCharacter s =
     (let x = wrapInt (positionX s - 1) in s\<lparr>positionX := (if x < 0 then 0 else x)\<rparr>)"

text \<open>
  \<open>setCurrentCharacterTo\<close>: the cell under the cursor gets the rune; its attribute list
  is cleared when \<open>currentSGRs\<close> is \<open>nil\<close>, and otherwise every current attribute is
  added to it.
\<close>

definition setCurrentCharacterTo :: "'g SGRFuns \<Rightarrow> int \<Rightarrow> 'g Screen \<Rightarrow> error + 'g Screen" where
  "setCurrentCharacterTo F r s =
     bindE (currentLine s) (\<lambda>l.
     bindE (characterAt l (positionX s)) (\<lambda>l1.
       (let c1 = (cellAt l1 (positionX s))\<lparr>rune := r\<rparr>;
            c2 = (case currentSGRs s of
                    None \<Rightarrow> clearSGR c1
                  | Some gs \<Rightarrow> fold (\<lambda>g c. c\<lparr>sgr := addSGR F g (sgr c)\<rparr>) gs c1)
        in Inr (s\<lparr>lines := (lines s)[nat (positionY s) := storeAt l1 (positionX s) c2]\<rparr>))))"

definition outNormalCharacter :: "'g SGRFuns \<Rightarrow> int \<Rightarrow> 'g Screen \<Rightarrow> error + 'g Screen" where
  "outNormalCharacter F b s = bindE (setCurrentCharacterTo F b s) (\<lambda>s1. Inr (nextCharacter s1))"

text \<open>
  A counted loop whose body may panic: \<open>for i := 0; n > i; i++ { body }\<close>. The counter
  stays between 0 and \<open>n\<close> and does not wrap; likewise \<open>for i := 0; n < i; i-- { body }\<close>
  runs its body \<open>- n\<close> times, which is \<open>2 ^ 63\<close> times for \<open>n = minInt\<close>.
\<close>

fun repeatE :: "nat \<Rightarrow> ('a \<Rightarrow> error + 'a) \<Rightarrow> 'a \<Rightarrow> error + 'a" where
  "repeatE 0 body s = Inr s"
| "repeatE (Suc n) body s = bindE (body s) (repeatE n body)"

definition outRelativeMoveCursorVertical :: "'g SGRFuns \<Rightarrow> int \<Rightarrow> 'g Screen \<Rightarrow> error + 'g Screen" where
  "outRelativeMoveCursorVertical F howMany s =
     bindE (repeatE (nat howMany) (nextLine F) s) (\<lambda>s1.
       repeatE (nat (- howMany)) (\<lambda>t. Inr (prevLine t)) s1)"

definition outRelativeMoveCursorHorizontal :: "int \<Rightarrow> 'g Screen \<Rightarrow> 'g Screen" where
  "outRelativeMoveCursorHorizontal howMany s =
     (let x = wrapInt (positionX s + howMany) in s\<lparr>positionX := (if x < 0 then 0 else x)\<rparr>)"

definition outAbsoluteMoveCursorVertical :: "'g SGRFuns \<Rightarrow> int \<Rightarrow> 'g Screen \<Rightarrow> error + 'g Screen" where
  "outAbsoluteMoveCursorVertical F targetY s =
     (let moveDownBy = wrapInt (targetY - positionY s)
      in outRelativeMoveCursorVertical F moveDownBy s)"

definition outAbsoluteMoveCursorHorizontal :: "int \<Rightarrow> 'g Screen \<Rightarrow> 'g Screen" where
  "outAbsoluteMoveCursorHorizontal targetX s =
     s\<lparr>positionX := (if targetX < 0 then 0 else targetX)\<rparr>"

text \<open>
  The loop of \<open>outDeleteLeft\<close>, with the number of iterations that are left; it breaks
  when the cursor has reached column 0.
\<close>

fun deleteLeftLoop :: "'g SGRFuns \<Rightarrow> nat \<Rightarrow> 'g Screen \<Rightarrow> error + 'g Screen" where
  "deleteLeftLoop F 0 s = Inr s"
| "deleteLeftLoop F (Suc n) s =
     bindE (setCurrentCharacterTo F 0x20 (prevCharacter s)) (\<lambda>s1.
       if positionX s1 = 0 then Inr s1 else deleteLeftLoop F n s1)"

definition outDeleteLeft :: "'g SGRFuns \<Rightarrow> int \<Rightarrow> 'g Screen \<Rightarrow> error + 'g Screen" where
  "outDeleteLeft F howMany s = deleteLeftLoop F (nat howMany) s"

definition outUnhandledEscapeSequence :: "string \<Rightarrow> 'g Screen \<Rightarrow> error + 'g Screen" where
  "outUnhandledEscapeSequence seq s =
     bindE (currentLine s) (\<lambda>l.
     bindE (characterAt l (positionX s)) (\<lambda>l1.
       (let c0 = cellAt l1 (positionX s);
            c1 = c0\<lparr>extraEscapeSequences := extraEscapeSequences c0 @ seq\<rparr>
        in Inr (s\<lparr>lines := (lines s)[nat (positionY s) := storeAt l1 (positionX s) c1]\<rparr>))))"

definition outSelectGraphicRenditionAttribute :: "'g SGRFuns \<Rightarrow> 'g \<Rightarrow> 'g Screen \<Rightarrow> 'g Screen" where
  "outSelectGraphicRenditionAttribute F g s =
     (if isUnsetAll F g then s\<lparr>currentSGRs := Some []\<rparr>
      else s\<lparr>currentSGRs := addToSGRAttributeList F g (currentSGRs s)\<rparr>)"

section \<open>Sequences of screen operations\<close>

text \<open>The calls the parser makes on the screen, and \<open>Resize\<close>.\<close>

datatype 'g ScreenOp =
    OutNormalCharacter int
  | NextLine
  | PrevLine
  | PrevCharacter
  | OutRelativeMoveCursorVertical int
  | OutRelativeMoveCursorHorizontal int
  | OutAbsoluteMoveCursorVertical int
  | OutAbsoluteMoveCursorHorizontal int
  | OutDeleteLeft int
  | OutUnhandledEscapeSequence string
  | OutSelectGraphicRenditionAttribute 'g
  | ResizeTo int int

fun applyOp :: "'g SGRFuns \<Rightarrow> 'g ScreenOp \<Rightarrow> 'g Screen \<Rightarrow> error + 'g Screen" where
  "applyOp F (OutNormalCharacter b) s = outNormalCharacter F b s"
| "applyOp F NextLine s = nextLine F s"
| "applyOp F PrevLine s = Inr (prevLine s)"
| "applyOp F PrevCharacter s = Inr (prevCharacter s)"
| "applyOp F (OutRelativeMoveCursorVertical n) s = outRelativeMoveCursorVertical F n s"
| "applyOp F (OutRelativeMoveCursorHorizontal n) s = Inr (outRelativeMoveCursorHorizontal n s)"
| "applyOp F (OutAbsoluteMoveCursorVertical y) s = outAbsoluteMoveCursorVertical F y s"
| "applyOp F (OutAbsoluteMoveCursorHorizontal x) s = Inr (outAbsoluteMoveCursorHorizontal x s)"
| "applyOp F (OutDeleteLeft n) s = outDeleteLeft F n s"
| "applyOp F (OutUnhandledEscapeSequence seq) s = outUnhandledEscapeSequence seq s"
| "applyOp F (OutSelectGraphicRenditionAttribute g) s = Inr (outSelectGraphicRenditionAttribute F g s)"
| "applyOp F (ResizeTo w h) s = Inr (Resize w h s)"

fun applyOps :: "'g SGRFuns \<Rightarrow> 'g ScreenOp list \<Rightarrow> 'g Screen \<Rightarrow> error + 'g Screen" where
  "applyOps F [] s = Inr s"
| "applyOps F (op # ops) s = bindE (applyOp F op s) (applyOps F ops)"

text \<open>
  The state invariant of the spec: between 1 and \<open>maxHeight\<close> lines, the cursor row on
  one of them, the cursor column not negative.
\<close>

definition screenInv :: "'g Screen \<Rightarrow> bool" where
  "screenInv s =
     (1 \<le> length (lines s) \<and> int (length (lines s)) \<le> maxHeight s \<and>
      0 \<le> positionY s \<and> positionY s < int (length (lines s)) \<and> 0 \<le> positionX s)"


text \<open>
  The arguments of an operation are Go \<open>int\<close>s: \<open>goArguments\<close> says that they are in
  the range of the type.
\<close>

fun goArguments :: "'g ScreenOp \<Rightarrow> bool" where
  "goArguments (OutRelativeMoveCursorVertical n) = isInt n"
| "goArguments (OutRelativeMoveCursorHorizontal n) = isInt n"
| "goArguments (OutAbsoluteMoveCursorVertical y) = isInt y"
| "goArguments (OutAbsoluteMoveCursorHorizontal x) = isInt x"
| "goArguments (OutDeleteLeft n) = isInt n"
| "goArguments (ResizeTo w h) = (isInt w \<and> isInt h)"
| "goArguments (OutNormalCharacter b) = True"
| "goArguments NextLine = True"
| "goArguments PrevLine = True"
| "goArguments PrevCharacter = True"
| "goArguments (OutUnhandledEscapeSequence seq) = True"
| "goArguments (OutSelectGraphicRenditionAttribute g) = True"

text \<open>
  The operation writes a normal character while the cursor is at the last column an
  \<open>int\<close> can hold, so that \<open>nextCharacter\<close> wraps the cursor column around.
\<close>

fun writesAtMaxInt :: "'g ScreenOp \<Rightarrow> 'g Screen \<Rightarrow> bool" where
  "writesAtMaxInt (OutNormalCharacter b) s = (positionX s = maxInt)"
| "writesAtMaxInt (OutRelativeMoveCursorVertical n) s = False"
| "writesAtMaxInt (OutRelativeMoveCursorHorizontal n) s = False"
| "writesAtMaxInt (OutAbsoluteMoveCursorVertical y) s = False"
| "writesAtMaxInt (OutAbsoluteMoveCursorHorizontal x) s = False"
| "writesAtMaxInt (OutDeleteLeft n) s = False"
| "writesAtMaxInt (ResizeTo w h) s = False"
| "writesAtMaxInt NextLine s = False"
| "writesAtMaxInt PrevLine s = False"
| "writesAtMaxInt PrevCharacter s = False"
| "writesAtMaxInt (OutUnhandledEscapeSequence seq) s = False"
| "writesAtMaxInt (OutSelectGraphicRenditionAttribute g) s = False"

text \<open>
  A run of operations from a state in which every operation has \<open>int\<close> arguments and
  none writes a normal character at column \<open>maxInt\<close>. The run is followed as far as it
  goes: a panic ends it.
\<close>

fun withinColumns :: "'g SGRFuns \<Rightarrow> 'g ScreenOp list \<Rightarrow> 'g Screen \<Rightarrow> bool" where
  "withinColumns F [] s = True"
| "withinColumns F (op # ops) s =
     (goArguments op \<and> \<not> writesAtMaxInt op s \<and>
      (case applyOp F op s of Inl e \<Rightarrow> True | Inr t \<Rightarrow> withinColumns F ops t))"

section \<open>The bytes of an emitted line, as the spec words them\<close>

text \<open>
  The spec's description of the emission of one line, written as functions of the line
  alone, to compare \<open>sendLineToScrollbackBuffer\<close> with. Per cell in order: the
  auxiliary bytes; then, only when the attribute list differs from the previous cell's,
  the reset and each attribute's CSI; then the rune.
\<close>

fun charactersBytes :: "'g SGRFuns \<Rightarrow> 'g Character list \<Rightarrow> 'g Character \<Rightarrow> string" where
  "charactersBytes F [] previousCharacter = []"
| "charactersBytes F (c # cs) previousCharacter =
     extraEscapeSequences c
     @ (if sgr c \<noteq> sgr previousCharacter then resetSGR @ concat (map (toCSI F) (sgr c)) else [])
     @ runeToString (rune c)
     @ charactersBytes F cs c"

text \<open>Whether some cell's attribute list differs from the one before it.\<close>

fun anySGRSet :: "'g Character list \<Rightarrow> 'g Character \<Rightarrow> bool" where
  "anySGRSet [] previousCharacter = False"
| "anySGRSet (c # cs) previousCharacter =
     (if sgr c \<noteq> sgr previousCharacter then True else anySGRSet cs c)"

definition lineBytes :: "'g SGRFuns \<Rightarrow> 'g Line \<Rightarrow> string" where
  "lineBytes F line =
     charactersBytes F (characters line) zeroCharacter
     @ (if anySGRSet (characters line) zeroCharacter then resetSGR else [])"

text \<open>
  Emitting a list of lines in order, as a function of the queued output: a line feed
  goes before a line exactly when the queue is not empty at that moment.
\<close>

fun emitLines :: "'g SGRFuns \<Rightarrow> 'g Line list \<Rightarrow> string \<Rightarrow> string" where
  "emitLines F [] q = q"
| "emitLines F (l # ls) q = emitLines F ls (q @ (if q \<noteq> [] then [LF] else []) @ lineBytes F l)"

text \<open>The bytes of one cursor movement of \<open>End\<close>.\<close>

definition cursorMoveBytes :: "char \<Rightarrow> char \<Rightarrow> int \<Rightarrow> string" where
  "cursorMoveBytes forward backward moveBy =
     (if moveBy > 0 then ESC # CHR ''['' # Itoa moveBy @ [forward]
      else if moveBy < 0 then ESC # CHR ''['' # Itoa (wrapInt (- moveBy)) @ [backward]
      else [])"

text \<open>
  The cursor movements at the end of \<open>End\<close> as the spec words them: from the place of
  the real cursor after the last emitted line (one past the last cell of the last
  line, on the last row) to the cursor of the screen, right and down counted positive.
\<close>

definition specEndMoves :: "'g Screen \<Rightarrow> string" where
  "specEndMoves s =
     cursorMoveBytes CHR ''C'' CHR ''D''
       (positionX s - int (length (characters (last (lines s)))))
     @ cursorMoveBytes CHR ''B'' CHR ''A''
       (positionY s - (int (length (lines s)) - 1))"

section \<open>Input of printable runes and newlines\<close>




section \<open>An instance of the attribute functions\<close>

text \<open>
  For evaluating the screen on concrete inputs: attributes that are one numeric
  parameter each, \<open>toCSI\<close> the sequence \<open>ESC [ n m\<close>, parameter 0 the reset, and adding
  an attribute appends it to the list.
\<close>

definition numericSGR :: "nat SGRFuns" where
  "numericSGR =
     \<lparr>toCSI = (\<lambda>n. ESC # CHR ''['' # natDigits n @ ''m''),
      addSGR = (\<lambda>g gs. gs @ [g]),
      isUnsetAll = (\<lambda>n. n = 0),
      addToSGRAttributeList =
        (\<lambda>g l. Some ((case l of None \<Rightarrow> [] | Some gs \<Rightarrow> gs) @ [g]))\<rparr>"

section \<open>Cells written by \<open>outDeleteLeft\<close>\<close>

text \<open>
  The body of the loop of \<open>outDeleteLeft\<close> before the test for column 0, and the
  property that the cursor's line has a cell at column \<open>x\<close> which holds a space.
  \<open>writeCell\<close> is what \<open>setCurrentCharacterTo\<close> makes of the cell it writes: the rune is
  set, and the attribute list is cleared when \<open>currentSGRs\<close> is \<open>nil\<close> and otherwise
  gets every current attribute added. \<open>cellOrDefault\<close> reads column \<open>x\<close> of the cursor's
  line, a column beyond the end of the line being the default cell that an extension of
  the line puts there.
\<close>

definition writeCell :: "'g SGRFuns \<Rightarrow> 'g list option \<Rightarrow> int \<Rightarrow> 'g Character \<Rightarrow> 'g Character" where
  "writeCell F cur r c =
     (case cur of
        None \<Rightarrow> clearSGR (c\<lparr>rune := r\<rparr>)
      | Some gs \<Rightarrow> fold (\<lambda>g c. c\<lparr>sgr := addSGR F g (sgr c)\<rparr>) gs (c\<lparr>rune := r\<rparr>))"

definition cellOrDefault :: "'g Screen \<Rightarrow> int \<Rightarrow> 'g Character" where
  "cellOrDefault s x =
     (if nat x < length (characters (lines s ! nat (positionY s)))
      then cellAt (lines s ! nat (positionY s)) x else defaultCharacter)"

definition deleteLeftStep :: "'g SGRFuns \<Rightarrow> 'g Screen \<Rightarrow> error + 'g Screen" where
  "deleteLeftStep F s = setCurrentCharacterTo F 0x20 (prevCharacter s)"

definition spaceAt :: "'g Screen \<Rightarrow> int \<Rightarrow> bool" where
  "spaceAt s x =
     (0 \<le> x \<and>
      nat x < length (characters (lines s ! nat (positionY s))) \<and>
      rune (cellAt (lines s ! nat (positionY s)) x) = 0x20)"

section \<open>Exit code of the scheduler\<close>

lemma startLoop_fold:
  "noFatal ps \<Longrightarrow>
   startLoop k e ps = Inr (fold (\<lambda>p acc. max acc (exitStatus p)) (promoted k e ps) e)"
proof (induction ps arbitrary: e)
  case Nil
  then show ?case by simp
next
  case (Cons p ps)
  then have nf: "noFatal ps" and np: "p \<noteq> WaitOtherError"
    by (auto simp: noFatal_def)
  from np show ?case
    by (cases p) (simp_all add: toForeground_def exitStatus_def Let_def Cons.IH [OF nf])
qed

lemma fold_max_Max:
  "fold (\<lambda>p acc. max acc (f p)) ps (e::int) = Max (insert e (f ` set ps))"
proof (induction ps arbitrary: e)
  case Nil
  then show ?case by simp
next
  case (Cons p ps)
  have "Max (insert (max e (f p)) (f ` set ps)) = Max (insert e (insert (f p) (f ` set ps)))"
  proof (cases "set ps = {}")
    case True
    then show ?thesis by (simp add: max.commute)
  next
    case False
    then have ne: "f ` set ps \<noteq> {}" by simp
    have fin: "finite (f ` set ps)" by simp
    show ?thesis
      using ne fin by (simp add: max.assoc)
  qed
  with Cons show ?case by simp
qed

section \<open>What a line emission appends\<close>


lemma fold_append_toCSI:
  "fold (\<lambda>g. appendToScrollback (toCSI F g)) gs s =
     s\<lparr>QueuedScrollbackOutput := QueuedScrollbackOutput s @ concat (map (toCSI F) gs)\<rparr>"
  by (induction gs arbitrary: s) (simp_all add: appendToScrollback_def)

lemma sendCharacters_eq:
  "sendCharacters F cs p d s =
     (if anySGRSet cs p then True else d,
      s\<lparr>QueuedScrollbackOutput := QueuedScrollbackOutput s @ charactersBytes F cs p\<rparr>)"
  by (induction cs arbitrary: p d s)
     (simp_all add: Let_def fold_append_toCSI appendToScrollback_def)

lemma sendLineToScrollbackBuffer_eq:
  "sendLineToScrollbackBuffer F l s =
     s\<lparr>QueuedScrollbackOutput :=
         QueuedScrollbackOutput s
         @ (if QueuedScrollbackOutput s \<noteq> [] then [LF] else [])
         @ lineBytes F l\<rparr>"
  by (simp add: sendLineToScrollbackBuffer_def sendCharacters_eq lineBytes_def
      appendToScrollback_def Let_def)

lemma startLoop_snoc:
  "startLoop k e ps = Inr prior \<Longrightarrow> k \<or> prior = 0 \<Longrightarrow> toForeground p = Inr c \<Longrightarrow>
   startLoop k e (ps @ [p]) = Inr (max prior c)"
proof (induction ps arbitrary: e)
  case Nil
  then show ?case by (auto simp: Let_def)
next
  case (Cons q qs)
  then show ?case
    by (auto simp: Let_def split: sum.splits if_splits)
qed

lemma toForeground_exitStatus:
  "p \<noteq> WaitOtherError \<Longrightarrow> toForeground p = Inr (exitStatus p)"
  by (cases p) (simp_all add: toForeground_def exitStatus_def)

section \<open>The state invariant\<close>


lemma bindE_Inr_iff:
  "bindE m f = Inr y \<longleftrightarrow> (\<exists>x. m = Inr x \<and> f x = Inr y)"
  by (cases m) (simp_all add: bindE_def)

lemma bindE_Inr [simp]: "bindE (Inr x) f = f x"
  by (simp add: bindE_def)

lemma bindE_Inl [simp]: "bindE (Inl e) f = Inl e"
  by (simp add: bindE_def)

lemma wrapInt_id: "minInt \<le> i \<Longrightarrow> i \<le> maxInt \<Longrightarrow> wrapInt i = i"
  by (simp add: wrapInt_def minInt_def maxInt_def)

lemma wrapInt_range: "minInt \<le> wrapInt i \<and> wrapInt i \<le> maxInt"
proof -
  have "0 \<le> (i + 9223372036854775808) mod 18446744073709551616"
    "(i + 9223372036854775808) mod 18446744073709551616 < 18446744073709551616"
    by simp_all
  then show ?thesis
    by (simp add: wrapInt_def minInt_def maxInt_def)
qed

lemma nextLine_inv:
  assumes "screenInv s"
  shows "\<exists>t. nextLine F s = Inr t \<and> screenInv t \<and> positionX t = positionX s"
proof (cases "positionY s < int (length (lines s)) - 1")
  case True
  with assms show ?thesis
    by (simp add: nextLine_def screenInv_def currentScreenHeight_def)
next
  case False
  obtain l rest where lr: "lines s @ [NewLine] = l # rest"
    by (cases "lines s @ [NewLine]") auto
  then have len: "length rest = length (lines s)"
    by (metis length_Cons length_append_singleton nat.inject)
  from False assms lr len show ?thesis
    by (auto simp: nextLine_def screenInv_def currentScreenHeight_def Let_def
        sendLineToScrollbackBuffer_eq)
qed

lemma setCurrentCharacterTo_inv:
  assumes "screenInv s"
  shows "\<exists>t. setCurrentCharacterTo F r s = Inr t \<and> screenInv t \<and> positionX t = positionX s"
  using assms
  by (simp add: setCurrentCharacterTo_def currentLine_def characterAt_def screenInv_def Let_def)

lemma prevCharacter_inv: "screenInv s \<Longrightarrow> screenInv (prevCharacter s)"
  by (simp add: prevCharacter_def screenInv_def Let_def)

lemma prevCharacter_le: "positionX (prevCharacter s) \<le> maxInt"
  using wrapInt_range [of "positionX s - 1"]
  by (simp add: prevCharacter_def Let_def maxInt_def)

lemma prevLine_inv: "screenInv s \<Longrightarrow> screenInv (prevLine s)"
  by (simp add: prevLine_def screenInv_def)


lemma outNormalCharacter_inv:
  assumes "screenInv s" "positionX s < maxInt"
  shows "\<exists>t. outNormalCharacter F b s = Inr t \<and> screenInv t \<and> positionX t \<le> maxInt"
proof -
  from setCurrentCharacterTo_inv [OF assms(1), of F b]
  obtain t where t: "setCurrentCharacterTo F b s = Inr t" "screenInv t"
    "positionX t = positionX s" by blast
  from assms have "wrapInt (positionX s + 1) = positionX s + 1"
    by (intro wrapInt_id) (simp_all add: screenInv_def minInt_def)
  with t assms(2) show ?thesis
    by (simp add: outNormalCharacter_def nextCharacter_def screenInv_def)
qed

lemma repeatE_inv:
  assumes step: "\<And>s. P s \<Longrightarrow> \<exists>t. body s = Inr t \<and> P t"
  shows "P s \<Longrightarrow> \<exists>t. repeatE n body s = Inr t \<and> P t"
proof (induction n arbitrary: s)
  case 0
  then show ?case by simp
next
  case (Suc n)
  from step [OF Suc.prems] obtain u where u: "body s = Inr u" "P u" by blast
  from Suc.IH [OF u(2)] u(1) show ?case by simp
qed

lemma outRelativeMoveCursorVertical_inv:
  assumes "screenInv s"
  shows "\<exists>t. outRelativeMoveCursorVertical F n s = Inr t \<and> screenInv t \<and>
     positionX t = positionX s"
proof -
  let ?P = "\<lambda>u. screenInv u \<and> positionX u = positionX s"
  have "\<exists>u. repeatE (nat n) (nextLine F) s = Inr u \<and> ?P u"
  proof (rule repeatE_inv [where P = ?P])
    show "\<exists>t. nextLine F v = Inr t \<and> ?P t" if "?P v" for v
      using nextLine_inv [of v F] that by auto
    show "?P s" using assms by simp
  qed
  then obtain u where u: "repeatE (nat n) (nextLine F) s = Inr u" "?P u" by blast
  have "\<exists>t. repeatE (nat (- n)) (\<lambda>t. Inr (prevLine t)) u = Inr t \<and> ?P t"
  proof (rule repeatE_inv [where P = ?P])
    show "\<exists>t. Inr (prevLine v) = Inr t \<and> ?P t" if "?P v" for v
      using prevLine_inv [of v] that by (simp add: prevLine_def)
    show "?P u" by (rule u(2))
  qed
  with u show ?thesis
    by (simp add: outRelativeMoveCursorVertical_def)
qed

lemma deleteLeftLoop_inv:
  "screenInv s \<Longrightarrow> positionX s \<le> maxInt \<Longrightarrow>
   \<exists>t. deleteLeftLoop F n s = Inr t \<and> screenInv t \<and> positionX t \<le> maxInt"
proof (induction n arbitrary: s)
  case 0
  then show ?case by simp
next
  case (Suc n)
  from setCurrentCharacterTo_inv [OF prevCharacter_inv [OF Suc.prems(1)], of F "0x20"]
  obtain u where u: "setCurrentCharacterTo F 0x20 (prevCharacter s) = Inr u" "screenInv u"
    "positionX u = positionX (prevCharacter s)"
    by blast
  from u(3) have le: "positionX u \<le> maxInt" by (simp add: prevCharacter_le)
  from Suc.IH [OF u(2) le] u le show ?case by auto
qed

lemma outUnhandledEscapeSequence_inv:
  assumes "screenInv s"
  shows "\<exists>t. outUnhandledEscapeSequence seq s = Inr t \<and> screenInv t \<and>
     positionX t = positionX s"
  using assms
  by (simp add: outUnhandledEscapeSequence_def currentLine_def characterAt_def screenInv_def
      Let_def)

lemma applyOp_inv:
  assumes "screenInv s" "positionX s \<le> maxInt" "goArguments op" "\<not> writesAtMaxInt op s"
  shows "\<exists>t. applyOp F op s = Inr t \<and> screenInv t \<and> positionX t \<le> maxInt"
proof (cases op)
  case (OutNormalCharacter b)
  with assms(2,4) have "positionX s < maxInt" by simp
  from outNormalCharacter_inv [OF assms(1) this] OutNormalCharacter show ?thesis by simp
next
  case NextLine
  then show ?thesis using nextLine_inv [OF assms(1), of F] assms(2) by auto
next
  case PrevLine
  then show ?thesis using prevLine_inv [OF assms(1)] assms(2) by (simp add: prevLine_def)
next
  case PrevCharacter
  then show ?thesis using prevCharacter_inv [OF assms(1)] prevCharacter_le [of s] by simp
next
  case (OutRelativeMoveCursorVertical n)
  then show ?thesis
    using outRelativeMoveCursorVertical_inv [OF assms(1), of F n] assms(2) by auto
next
  case (OutRelativeMoveCursorHorizontal n)
  then show ?thesis using assms(1) wrapInt_range [of "positionX s + n"]
    by (simp add: outRelativeMoveCursorHorizontal_def screenInv_def Let_def maxInt_def)
next
  case (OutAbsoluteMoveCursorVertical y)
  then show ?thesis
    using outRelativeMoveCursorVertical_inv [OF assms(1), of F "wrapInt (y - positionY s)"]
      assms(2)
    by (auto simp: outAbsoluteMoveCursorVertical_def Let_def)
next
  case (OutAbsoluteMoveCursorHorizontal x)
  then show ?thesis using assms(1,3)
    by (simp add: outAbsoluteMoveCursorHorizontal_def screenInv_def isInt_def maxInt_def)
next
  case (OutDeleteLeft n)
  then show ?thesis using deleteLeftLoop_inv [OF assms(1,2), of F "nat n"]
    by (simp add: outDeleteLeft_def)
next
  case (OutUnhandledEscapeSequence seq)
  then show ?thesis using outUnhandledEscapeSequence_inv [OF assms(1), of seq] assms(2)
    by auto
next
  case (OutSelectGraphicRenditionAttribute g)
  then show ?thesis using assms(1,2)
    by (simp add: outSelectGraphicRenditionAttribute_def screenInv_def)
next
  case (ResizeTo w h)
  then show ?thesis using assms(1,2) by (simp add: Resize_def)
qed

lemma applyOps_inv:
  "screenInv s \<Longrightarrow> positionX s \<le> maxInt \<Longrightarrow> withinColumns F ops s \<Longrightarrow>
   \<exists>t. applyOps F ops s = Inr t \<and> screenInv t \<and> positionX t \<le> maxInt"
proof (induction ops arbitrary: s)
  case Nil
  then show ?case by simp
next
  case (Cons op ops)
  from Cons.prems(3) have g: "goArguments op" "\<not> writesAtMaxInt op s" by simp_all
  from applyOp_inv [OF Cons.prems(1,2) g, of F]
  obtain u where u: "applyOp F op s = Inr u" "screenInv u" "positionX u \<le> maxInt" by blast
  from Cons.prems(3) u(1) have "withinColumns F ops u" by simp
  from Cons.IH [OF u(2,3) this] u(1) show ?case by simp
qed











lemma NewScreen_inv: "screenInv (NewScreen width height)"
  by (simp add: NewScreen_def screenInv_def)

lemma NewScreen_positionX: "positionX (NewScreen width height) \<le> maxInt"
  by (simp add: NewScreen_def maxInt_def)

lemma applyOps_append:
  "applyOps F (ops @ ops') s = bindE (applyOps F ops s) (applyOps F ops')"
  by (induction ops arbitrary: s) (simp_all add: bindE_def split: sum.splits)


section \<open>What End does\<close>


lemma fold_sendLine_eq:
  "fold (sendLineToScrollbackBuffer F) ls s =
     s\<lparr>QueuedScrollbackOutput := emitLines F ls (QueuedScrollbackOutput s)\<rparr>"
  by (induction ls arbitrary: s) (simp_all add: sendLineToScrollbackBuffer_eq)

lemma cursorMove_eq:
  "cursorMove f b d s =
     s\<lparr>QueuedScrollbackOutput := QueuedScrollbackOutput s @ cursorMoveBytes f b d\<rparr>"
  by (simp add: cursorMove_def cursorMoveBytes_def appendToScrollback_def)

lemma End_eq:
  assumes "\<not> Ended s" "0 \<le> positionY s" "positionY s < int (length (lines s))"
  shows "End F s =
     Inr (s\<lparr>lines := [], Ended := True,
            QueuedScrollbackOutput :=
              emitLines F (lines s) (QueuedScrollbackOutput s)
              @ cursorMoveBytes CHR ''C'' CHR ''D''
                  (wrapInt (lengthWithoutTrailingSpacesAndEmptyRunes (lines s ! nat (positionY s))
                   - positionX s))
              @ cursorMoveBytes CHR ''B'' CHR ''A''
                  (wrapInt (wrapInt (int (length (lines s)) - positionY s) - 1))\<rparr>)"
  using assms
  by (simp add: End_def fold_sendLine_eq currentLine_def cursorMove_eq
      currentScreenHeight_def Let_def)

lemma End_Ended: "Ended s \<Longrightarrow> End F s = Inl DoubleEnd"
  by (simp add: End_def)

section \<open>The size given at creation is kept\<close>

lemma nextLine_size:
  "nextLine F s = Inr t \<Longrightarrow> maxHeight t = maxHeight s \<and> desiredWidth t = desiredWidth s"
  by (auto simp: nextLine_def Let_def sendLineToScrollbackBuffer_eq
      split: if_splits list.splits)

lemma setCurrentCharacterTo_size:
  "setCurrentCharacterTo F r s = Inr t \<Longrightarrow>
   maxHeight t = maxHeight s \<and> desiredWidth t = desiredWidth s"
  by (auto simp: setCurrentCharacterTo_def bindE_Inr_iff Let_def)

lemma repeatE_size:
  assumes step: "\<And>s t. body s = Inr t \<Longrightarrow> f t = f s"
  shows "repeatE n body s = Inr t \<Longrightarrow> f t = f s"
proof (induction n arbitrary: s)
  case 0
  then show ?case by simp
next
  case (Suc n)
  then obtain u where u: "body s = Inr u" "repeatE n body u = Inr t"
    by (auto simp: bindE_Inr_iff)
  from Suc.IH [OF u(2)] step [OF u(1)] show ?case by simp
qed

lemma outRelativeMoveCursorVertical_size:
  assumes "outRelativeMoveCursorVertical F n s = Inr t"
  shows "maxHeight t = maxHeight s \<and> desiredWidth t = desiredWidth s"
proof -
  from assms obtain u where u: "repeatE (nat n) (nextLine F) s = Inr u"
      "repeatE (nat (- n)) (\<lambda>t. Inr (prevLine t)) u = Inr t"
    by (auto simp: outRelativeMoveCursorVertical_def bindE_Inr_iff)
  have a: "(maxHeight u, desiredWidth u) = (maxHeight s, desiredWidth s)"
    by (rule repeatE_size [OF _ u(1)]) (use nextLine_size in fastforce)
  have b: "(maxHeight t, desiredWidth t) = (maxHeight u, desiredWidth u)"
    by (rule repeatE_size [OF _ u(2)]) (auto simp: prevLine_def split: if_splits)
  from a b show ?thesis by simp
qed

lemma deleteLeftLoop_size:
  "deleteLeftLoop F n s = Inr t \<Longrightarrow>
   maxHeight t = maxHeight s \<and> desiredWidth t = desiredWidth s"
proof (induction n arbitrary: s)
  case 0
  then show ?case by simp
next
  case (Suc n)
  then obtain u where u: "setCurrentCharacterTo F 0x20 (prevCharacter s) = Inr u"
      "(if positionX u = 0 then Inr u else deleteLeftLoop F n u) = Inr t"
    by (auto simp: bindE_Inr_iff)
  from setCurrentCharacterTo_size [OF u(1)]
  have "maxHeight u = maxHeight s \<and> desiredWidth u = desiredWidth s"
    by (simp add: prevCharacter_def Let_def)
  with u(2) Suc.IH [of u] show ?case
    by (auto split: if_splits)
qed

lemma applyOp_size:
  "applyOp F op s = Inr t \<Longrightarrow> maxHeight t = maxHeight s \<and> desiredWidth t = desiredWidth s"
proof (cases op)
  case (OutNormalCharacter b)
  assume "applyOp F op s = Inr t"
  with OutNormalCharacter show ?thesis
    using setCurrentCharacterTo_size [of F b s]
    by (auto simp: outNormalCharacter_def bindE_Inr_iff nextCharacter_def)
next
  case NextLine
  assume "applyOp F op s = Inr t"
  with NextLine show ?thesis using nextLine_size [of F s t] by simp
next
  case (OutRelativeMoveCursorVertical n)
  assume "applyOp F op s = Inr t"
  with OutRelativeMoveCursorVertical show ?thesis
    using outRelativeMoveCursorVertical_size [of F n s t] by simp
next
  case (OutAbsoluteMoveCursorVertical y)
  assume "applyOp F op s = Inr t"
  with OutAbsoluteMoveCursorVertical show ?thesis
    using outRelativeMoveCursorVertical_size [of F "wrapInt (y - positionY s)" s t]
    by (simp add: outAbsoluteMoveCursorVertical_def Let_def)
next
  case (OutDeleteLeft n)
  assume "applyOp F op s = Inr t"
  with OutDeleteLeft show ?thesis
    using deleteLeftLoop_size [of F "nat n" s t] by (simp add: outDeleteLeft_def)
next
  case (OutUnhandledEscapeSequence seq)
  assume "applyOp F op s = Inr t"
  with OutUnhandledEscapeSequence show ?thesis
    by (auto simp: outUnhandledEscapeSequence_def bindE_Inr_iff Let_def)
qed (auto simp: prevLine_def prevCharacter_def outRelativeMoveCursorHorizontal_def
      outAbsoluteMoveCursorHorizontal_def outSelectGraphicRenditionAttribute_def Resize_def
      Let_def split: if_splits)

lemma applyOps_size:
  "applyOps F ops s = Inr t \<Longrightarrow> maxHeight t = maxHeight s \<and> desiredWidth t = desiredWidth s"
proof (induction ops arbitrary: s)
  case Nil
  then show ?case by simp
next
  case (Cons op ops)
  then obtain u where u: "applyOp F op s = Inr u" "applyOps F ops u = Inr t"
    by (auto simp: bindE_Inr_iff)
  from applyOp_size [OF u(1)] Cons.IH [OF u(2)] show ?case by simp
qed


section \<open>Printable runes on a fresh screen\<close>










section \<open>The loop of outDeleteLeft\<close>


lemma rune_fold_addSGR:
  "rune (fold (\<lambda>g c. c\<lparr>sgr := addSGR F g (sgr c)\<rparr>) gs c) = rune c"
  by (induction gs arbitrary: c) simp_all

lemma rune_written:
  "rune (case cur of None \<Rightarrow> clearSGR (c\<lparr>rune := r\<rparr>)
         | Some gs \<Rightarrow> fold (\<lambda>g c. c\<lparr>sgr := addSGR F g (sgr c)\<rparr>) gs (c\<lparr>rune := r\<rparr>)) = r"
  by (cases cur) (simp_all add: clearSGR_def rune_fold_addSGR)

lemma padTo_length: "length (padTo cs n) = max (length cs) n"
  by (simp add: padTo_def)

lemma padTo_bound: "k < length (padTo cs (Suc k))"
  by (simp add: padTo_def)

lemma padTo_mono: "i < length cs \<Longrightarrow> i < length (padTo cs n)"
  by (simp add: padTo_def)

lemma padTo_nth: "i < length cs \<Longrightarrow> padTo cs n ! i = cs ! i"
  by (simp add: padTo_def nth_append)

lemma padTo_nth_default:
  "i < length (padTo cs n) \<Longrightarrow>
   padTo cs n ! i = (if i < length cs then cs ! i else defaultCharacter)"
  by (simp add: padTo_def nth_append)

lemma setCurrentCharacterTo_space:
  assumes "screenInv s"
  shows "\<exists>t. setCurrentCharacterTo F 0x20 s = Inr t \<and> screenInv t \<and>
     positionX t = positionX s \<and> positionY t = positionY s \<and>
     currentSGRs t = currentSGRs s \<and>
     QueuedScrollbackOutput t = QueuedScrollbackOutput s \<and>
     spaceAt t (positionX s) \<and> (\<forall>x. spaceAt s x \<longrightarrow> spaceAt t x) \<and>
     (\<forall>x. 0 \<le> x \<longrightarrow> cellOrDefault t x =
        (if x = positionX s then writeCell F (currentSGRs s) 0x20 (cellOrDefault s x)
         else cellOrDefault s x))"
proof -
  let ?l = "lines s ! nat (positionY s)"
  let ?k = "nat (positionX s)"
  let ?cs = "padTo (characters ?l) (Suc ?k)"
  let ?c = "case currentSGRs s of None \<Rightarrow> clearSGR ((?cs ! ?k)\<lparr>rune := 0x20\<rparr>)
         | Some gs \<Rightarrow> fold (\<lambda>g c. c\<lparr>sgr := addSGR F g (sgr c)\<rparr>) gs ((?cs ! ?k)\<lparr>rune := 0x20\<rparr>)"
  let ?t = "s\<lparr>lines := (lines s)[nat (positionY s) := ?l\<lparr>characters := ?cs[?k := ?c]\<rparr>]\<rparr>"
  from assms have y: "0 \<le> positionY s" "nat (positionY s) < length (lines s)"
    and yi: "positionY s < int (length (lines s))"
    and x: "0 \<le> positionX s"
    by (auto simp: screenInv_def)
  have eq: "setCurrentCharacterTo F 0x20 s = Inr ?t"
    using y yi x
    by (simp add: setCurrentCharacterTo_def currentLine_def characterAt_def cellAt_def
        storeAt_def Let_def cong: option.case_cong)
  have inv: "screenInv ?t"
    using assms by (simp add: screenInv_def)
  have rc: "rune ?c = 0x20" by (rule rune_written)
  have new: "spaceAt ?t (positionX s)"
    using y x rc by (simp add: spaceAt_def cellAt_def padTo_bound)
  have old: "spaceAt ?t z" if "spaceAt s z" for z
  proof (cases "nat z = ?k")
    case True
    with that x have "z = positionX s" by (auto simp: spaceAt_def)
    with new show ?thesis by simp
  next
    case False
    with that y show ?thesis
      by (simp add: spaceAt_def cellAt_def padTo_mono padTo_nth)
  qed
  have line: "lines ?t ! nat (positionY ?t) = ?l\<lparr>characters := ?cs[?k := ?c]\<rparr>"
    using y by simp
  have kb: "?k < length ?cs" by (rule padTo_bound)
  have at: "?cs ! ?k = cellOrDefault s (positionX s)"
    by (simp add: padTo_nth_default [OF kb] cellOrDefault_def cellAt_def)
  have wc: "?c = writeCell F (currentSGRs s) 0x20 (cellOrDefault s (positionX s))"
    by (simp only: at writeCell_def)
  have cells: "cellOrDefault ?t z =
      (if z = positionX s then writeCell F (currentSGRs s) 0x20 (cellOrDefault s z)
       else cellOrDefault s z)" if "0 \<le> z" for z
  proof (cases "z = positionX s")
    case True
    have "cellOrDefault ?t z = ?c"
      unfolding cellOrDefault_def line using kb by (simp add: True cellAt_def)
    with wc True show ?thesis by simp
  next
    case False
    with that x have ne: "nat z \<noteq> ?k" by simp
    have "cellOrDefault ?t z = cellOrDefault s z"
    proof (cases "nat z < length ?cs")
      case True
      have "cellOrDefault ?t z = ?cs ! nat z"
        unfolding cellOrDefault_def line using True ne by (simp add: cellAt_def)
      also have "\<dots> = cellOrDefault s z"
        by (simp add: padTo_nth_default [OF True] cellOrDefault_def cellAt_def)
      finally show ?thesis .
    next
      case False
      then have big: "\<not> nat z < length (characters ?l)"
        by (simp add: padTo_length)
      have "cellOrDefault ?t z = defaultCharacter"
        unfolding cellOrDefault_def line using False by simp
      with big show ?thesis by (simp add: cellOrDefault_def)
    qed
    with False show ?thesis by simp
  qed
  from eq inv new old cells show ?thesis by auto
qed

lemma deleteLeftStep_props:
  assumes "screenInv s" "positionX s \<le> maxInt"
  shows "\<exists>t. deleteLeftStep F s = Inr t \<and> screenInv t \<and> positionX t \<le> maxInt \<and>
     positionX t = max 0 (positionX s - 1) \<and> positionY t = positionY s \<and>
     currentSGRs t = currentSGRs s \<and>
     QueuedScrollbackOutput t = QueuedScrollbackOutput s \<and>
     spaceAt t (positionX t) \<and> (\<forall>x. spaceAt s x \<longrightarrow> spaceAt t x) \<and>
     (\<forall>x. 0 \<le> x \<longrightarrow> cellOrDefault t x =
        (if x = positionX t then writeCell F (currentSGRs s) 0x20 (cellOrDefault s x)
         else cellOrDefault s x))"
proof -
  let ?p = "prevCharacter s"
  have p: "screenInv ?p" by (rule prevCharacter_inv [OF assms(1)])
  from assms have w: "wrapInt (positionX s - 1) = positionX s - 1"
    by (intro wrapInt_id) (simp_all add: screenInv_def minInt_def)
  have px: "positionX ?p = max 0 (positionX s - 1)" "positionY ?p = positionY s"
    "currentSGRs ?p = currentSGRs s" "QueuedScrollbackOutput ?p = QueuedScrollbackOutput s"
    "lines ?p = lines s"
    by (simp_all add: prevCharacter_def Let_def max_def w)
  have le: "positionX ?p \<le> maxInt" by (rule prevCharacter_le)
  have sp: "spaceAt ?p x = spaceAt s x" for x
    by (simp add: spaceAt_def px)
  have cd: "cellOrDefault ?p x = cellOrDefault s x" for x
    by (simp add: cellOrDefault_def px)
  from setCurrentCharacterTo_space [OF p, of F] obtain t where t:
    "setCurrentCharacterTo F 0x20 ?p = Inr t" "screenInv t"
    "positionX t = positionX ?p" "positionY t = positionY ?p"
    "currentSGRs t = currentSGRs ?p"
    "QueuedScrollbackOutput t = QueuedScrollbackOutput ?p"
    "spaceAt t (positionX ?p)" "\<forall>x. spaceAt ?p x \<longrightarrow> spaceAt t x"
    "\<forall>x. 0 \<le> x \<longrightarrow> cellOrDefault t x =
        (if x = positionX ?p then writeCell F (currentSGRs ?p) 0x20 (cellOrDefault ?p x)
         else cellOrDefault ?p x)"
    by blast
  from t(7) t(3) have here: "spaceAt t (positionX t)" by simp
  from t(9) have cells: "\<forall>x. 0 \<le> x \<longrightarrow> cellOrDefault t x =
        (if x = positionX t then writeCell F (currentSGRs s) 0x20 (cellOrDefault s x)
         else cellOrDefault s x)"
    by (simp add: cd px(3) t(3))
  from t(1-6,8) here le cells show ?thesis
    by (simp add: deleteLeftStep_def px sp)
qed

lemma deleteLeftLoop_unfold:
  "deleteLeftLoop F (Suc n) s =
     bindE (deleteLeftStep F s) (\<lambda>s1. if positionX s1 = 0 then Inr s1 else deleteLeftLoop F n s1)"
  by (simp add: deleteLeftStep_def)

lemma deleteLeftLoop_props:
  assumes "screenInv s" "positionX s \<le> maxInt"
  shows "\<exists>t. deleteLeftLoop F (Suc k) s = Inr t \<and>
     repeatE (nat (min (int (Suc k)) (max 1 (positionX s)))) (deleteLeftStep F) s = Inr t \<and>
     positionX t = max 0 (positionX s - int (Suc k)) \<and> positionY t = positionY s \<and>
     currentSGRs t = currentSGRs s \<and>
     QueuedScrollbackOutput t = QueuedScrollbackOutput s \<and>
     (\<forall>x. spaceAt s x \<longrightarrow> spaceAt t x) \<and>
     (\<forall>x. max 0 (positionX s - int (Suc k)) \<le> x \<and> x < max 1 (positionX s)
          \<longrightarrow> spaceAt t x) \<and>
     (\<forall>x. 0 \<le> x \<longrightarrow> cellOrDefault t x =
        (if max 0 (positionX s - int (Suc k)) \<le> x \<and> x < max 1 (positionX s)
         then writeCell F (currentSGRs s) 0x20 (cellOrDefault s x)
         else cellOrDefault s x))"
  using assms
proof (induction k arbitrary: s)
  case 0
  from 0(1) have x0: "0 \<le> positionX s" by (simp add: screenInv_def)
  from deleteLeftStep_props [OF 0, of F] obtain v where v:
    "deleteLeftStep F s = Inr v" "positionX v = max 0 (positionX s - 1)"
    "positionY v = positionY s" "currentSGRs v = currentSGRs s"
    "QueuedScrollbackOutput v = QueuedScrollbackOutput s"
    "spaceAt v (positionX v)" "\<forall>x. spaceAt s x \<longrightarrow> spaceAt v x"
    "\<forall>x. 0 \<le> x \<longrightarrow> cellOrDefault v x =
        (if x = positionX v then writeCell F (currentSGRs s) 0x20 (cellOrDefault s x)
         else cellOrDefault s x)"
    by blast
  have one: "nat (min (int (Suc 0)) (max 1 (positionX s))) = Suc 0" by simp
  have loop: "deleteLeftLoop F (Suc 0) s = Inr v"
    by (simp only: deleteLeftLoop_unfold v(1)) simp
  have rep: "repeatE (Suc 0) (deleteLeftStep F) s = Inr v"
    by (simp add: v(1))
  have range: "(max 0 (positionX s - int (Suc 0)) \<le> x \<and> x < max 1 (positionX s))
      = (x = positionX v)" for x
    using x0 v(2) by (auto simp: max_def split: if_splits)
  have rng: "spaceAt v x" if "max 0 (positionX s - int (Suc 0)) \<le> x" "x < max 1 (positionX s)" for x
  proof -
    from that have "x = positionX v" using range [of x] by simp
    with v(6) show ?thesis by simp
  qed
  have cells: "\<forall>x. 0 \<le> x \<longrightarrow> cellOrDefault v x =
        (if max 0 (positionX s - int (Suc 0)) \<le> x \<and> x < max 1 (positionX s)
         then writeCell F (currentSGRs s) 0x20 (cellOrDefault s x)
         else cellOrDefault s x)"
    using v(8) by (simp only: range)
  from loop rep v(2-5,7) rng cells show ?case
    by (simp only: one) auto
next
  case (Suc k)
  from Suc.prems(1) have x0: "0 \<le> positionX s" by (simp add: screenInv_def)
  from deleteLeftStep_props [OF Suc.prems, of F] obtain v where v:
    "deleteLeftStep F s = Inr v" "screenInv v" "positionX v = max 0 (positionX s - 1)"
    "positionY v = positionY s" "currentSGRs v = currentSGRs s"
    "QueuedScrollbackOutput v = QueuedScrollbackOutput s"
    "spaceAt v (positionX v)" "\<forall>x. spaceAt s x \<longrightarrow> spaceAt v x"
    "positionX v \<le> maxInt"
    "\<forall>x. 0 \<le> x \<longrightarrow> cellOrDefault v x =
        (if x = positionX v then writeCell F (currentSGRs s) 0x20 (cellOrDefault s x)
         else cellOrDefault s x)"
    by blast
  show ?case
  proof (cases "positionX v = 0")
    case True
    with v(3) have small: "positionX s \<le> 1" by (simp add: max_def split: if_splits)
    then have one: "nat (min (int (Suc (Suc k))) (max 1 (positionX s))) = Suc 0"
      by (simp add: max_def min_def)
    have loop: "deleteLeftLoop F (Suc (Suc k)) s = Inr v"
      by (simp only: deleteLeftLoop_unfold [of F "Suc k"] v(1) bindE_Inr True simp_thms if_True)
    have rep: "repeatE (Suc 0) (deleteLeftStep F) s = Inr v"
      by (simp add: v(1))
    have px: "positionX v = max 0 (positionX s - int (Suc (Suc k)))"
      using True small by simp
    have range: "(max 0 (positionX s - int (Suc (Suc k))) \<le> x \<and> x < max 1 (positionX s))
        = (x = positionX v)" for x
      using x0 small True by (auto simp: max_def split: if_splits)
    have rng: "spaceAt v x"
      if "max 0 (positionX s - int (Suc (Suc k))) \<le> x" "x < max 1 (positionX s)" for x
    proof -
      from that have "x = positionX v" using range [of x] by simp
      with v(7) show ?thesis by simp
    qed
    have cells: "\<forall>x. 0 \<le> x \<longrightarrow> cellOrDefault v x =
        (if max 0 (positionX s - int (Suc (Suc k))) \<le> x \<and> x < max 1 (positionX s)
         then writeCell F (currentSGRs s) 0x20 (cellOrDefault s x)
         else cellOrDefault s x)"
      using v(10) by (simp only: range)
    from loop rep px v(4-6,8) rng cells show ?thesis
      by (simp only: one) auto
  next
    case False
    with v(3) have big: "2 \<le> positionX s" and pv: "positionX v = positionX s - 1"
      by (simp_all add: max_def split: if_splits)
    from Suc.IH [OF v(2) v(9)] obtain t where t:
      "deleteLeftLoop F (Suc k) v = Inr t"
      "repeatE (nat (min (int (Suc k)) (max 1 (positionX v)))) (deleteLeftStep F) v = Inr t"
      "positionX t = max 0 (positionX v - int (Suc k))" "positionY t = positionY v"
      "currentSGRs t = currentSGRs v" "QueuedScrollbackOutput t = QueuedScrollbackOutput v"
      "\<forall>x. spaceAt v x \<longrightarrow> spaceAt t x"
      "\<forall>x. max 0 (positionX v - int (Suc k)) \<le> x \<and> x < max 1 (positionX v) \<longrightarrow> spaceAt t x"
      "\<forall>x. 0 \<le> x \<longrightarrow> cellOrDefault t x =
        (if max 0 (positionX v - int (Suc k)) \<le> x \<and> x < max 1 (positionX v)
         then writeCell F (currentSGRs v) 0x20 (cellOrDefault v x)
         else cellOrDefault v x)"
      by blast
    have cnt: "nat (min (int (Suc (Suc k))) (max 1 (positionX s))) =
        Suc (nat (min (int (Suc k)) (max 1 (positionX v))))"
      using big pv by (auto simp: max_def min_def)
    have loop: "deleteLeftLoop F (Suc (Suc k)) s = Inr t"
      by (simp only: deleteLeftLoop_unfold [of F "Suc k"] v(1) bindE_Inr False if_False t(1))
    have rep: "repeatE (nat (min (int (Suc (Suc k))) (max 1 (positionX s))))
        (deleteLeftStep F) s = Inr t"
      by (simp only: cnt repeatE.simps v(1) bindE_Inr t(2))
    have px: "positionX t = max 0 (positionX s - int (Suc (Suc k)))"
      using t(3) pv by (simp add: max_def)
    have rng: "spaceAt t x"
      if "max 0 (positionX s - int (Suc (Suc k))) \<le> x" "x < max 1 (positionX s)" for x
    proof (cases "x = positionX v")
      case True
      with v(7) t(7) show ?thesis by simp
    next
      case False
      with that big pv have "max 0 (positionX v - int (Suc k)) \<le> x \<and> x < max 1 (positionX v)"
        by (simp add: max_def split: if_splits)
      with t(8) show ?thesis by blast
    qed
    have cells: "cellOrDefault t x =
        (if max 0 (positionX s - int (Suc (Suc k))) \<le> x \<and> x < max 1 (positionX s)
         then writeCell F (currentSGRs s) 0x20 (cellOrDefault s x)
         else cellOrDefault s x)" if "0 \<le> x" for x
    proof -
      from t(9) that have e: "cellOrDefault t x =
        (if max 0 (positionX v - int (Suc k)) \<le> x \<and> x < max 1 (positionX v)
         then writeCell F (currentSGRs v) 0x20 (cellOrDefault v x)
         else cellOrDefault v x)"
        by blast
      from v(10) that have f: "cellOrDefault v x =
        (if x = positionX v then writeCell F (currentSGRs s) 0x20 (cellOrDefault s x)
         else cellOrDefault s x)"
        by blast
      show ?thesis
      proof (cases "x = positionX v")
        case True
        then have out: "\<not> (max 0 (positionX v - int (Suc k)) \<le> x \<and> x < max 1 (positionX v))"
        using big pv by (simp add: max_def)
      from True have inside: "max 0 (positionX s - int (Suc (Suc k))) \<le> x \<and> x < max 1 (positionX s)"
        using big pv by (simp add: max_def)
      have "cellOrDefault t x = cellOrDefault v x"
        by (simp only: e out if_False)
      also have "\<dots> = writeCell F (currentSGRs s) 0x20 (cellOrDefault s x)"
        using f True by simp
      finally show ?thesis using inside by simp
    next
      case False
      then have same: "(max 0 (positionX s - int (Suc (Suc k))) \<le> x \<and> x < max 1 (positionX s))
          = (max 0 (positionX v - int (Suc k)) \<le> x \<and> x < max 1 (positionX v))"
        using big pv by (auto simp: max_def split: if_splits)
      have vx: "cellOrDefault v x = cellOrDefault s x"
        by (simp only: f False if_False)
      show ?thesis
        by (simp only: e same vx v(5))
      qed
    qed
    from loop rep px t(4-7) v(4-6,8) rng cells show ?thesis by auto
  qed
qed


section \<open>The claims\<close>

text \<open>
  C9. For every sequence of promoted children, the exit code of \<open>start\<close> is the maximum
  of the exit statuses of the children promoted so far, the code starting from 0: when
  no child ends in \<open>log.Fatal\<close>, \<open>start\<close> returns the maximum of 0 and the exit
  statuses of the children its loop brought to the foreground, and, as long as the loop
  has not stopped (keep-going set, or exit code still 0), promoting one more child
  makes the exit code the maximum of the prior exit code and that child's exit status.
\<close>

theorem start_exitCode_max:
  "noFatal (ps @ [p]) \<Longrightarrow>
   (\<exists>prior. start k ps = Inr prior \<and>
       prior = Max (insert 0 (exitStatus ` set (promoted k 0 ps))) \<and>
       (k \<or> prior = 0 \<longrightarrow> start k (ps @ [p]) = Inr (max prior (exitStatus p))))"
proof -
  assume nf: "noFatal (ps @ [p])"
  then have nfps: "noFatal ps" and np: "p \<noteq> WaitOtherError"
    by (auto simp: noFatal_def)
  have a: "start k ps = Inr (Max (insert 0 (exitStatus ` set (promoted k 0 ps))))"
    unfolding start_def by (simp add: startLoop_fold [OF nfps] fold_max_Max)
  show ?thesis
    using a startLoop_snoc [of k 0 ps _ p, OF _ _ toForeground_exitStatus [OF np]]
    by (auto simp: start_def)
qed

theorem start_exitCode_max_witness:
  "noFatal ([WaitNil, WaitExitError 3] @ [WaitExitError 2]) \<and>
   start True [WaitNil, WaitExitError 3] = Inr 3 \<and>
   start True ([WaitNil, WaitExitError 3] @ [WaitExitError 2]) = Inr 3 \<and>
   start False ([WaitNil, WaitExitError 3] @ [WaitExitError 2]) = Inr 3"
  using start_exitCode_max [of "[WaitNil, WaitExitError 3]" "WaitExitError 2" True]
  by (simp add: noFatal_def start_def toForeground_def exitStatus_def)

text \<open>
  C10. \<open>Resize\<close> leaves the whole screen state unchanged, whatever width and height it
  is given, and no sequence of screen operations changes the dimensions the screen got
  at creation (\<open>maxHeight\<close> and \<open>desiredWidth\<close>).
\<close>

theorem Resize_unchanged:
  "Resize width height s = s \<and>
   (applyOps F ops s = Inr t \<longrightarrow>
      maxHeight t = maxHeight s \<and> desiredWidth t = desiredWidth s)"
  using applyOps_size [of F ops s t] by (simp add: Resize_def)

theorem Resize_unchanged_witness:
  "Resize 10 5 (NewScreen 80 24 :: nat Screen) = NewScreen 80 24 \<and>
   (\<exists>t. applyOps numericSGR [ResizeTo 10 5, OutNormalCharacter 0x61, NextLine]
          (NewScreen 80 24) = Inr t \<and> maxHeight t = 24 \<and> desiredWidth t = 80)"
proof -
  let ?ops = "[ResizeTo 10 5, OutNormalCharacter 0x61, NextLine] :: nat ScreenOp list"
  let ?s = "NewScreen 80 24 :: nat Screen"
  have w: "withinColumns numericSGR ?ops ?s" by code_simp
  obtain t where t: "applyOps numericSGR ?ops ?s = Inr t"
    using applyOps_inv [OF NewScreen_inv NewScreen_positionX w] by blast
  note r = Resize_unchanged [of 10 5 ?s numericSGR ?ops t]
  from r have a: "Resize 10 5 ?s = ?s" by blast
  from r t have "maxHeight t = maxHeight ?s \<and> desiredWidth t = desiredWidth ?s" by blast
  then have b: "maxHeight t = 24 \<and> desiredWidth t = 80" by (simp add: NewScreen_def)
  from a b t show ?thesis by blast
qed




text \<open>
  C6. \<open>End\<close> may be called once: on a screen in a state the operations can reach and
  that has not ended, the first call succeeds and sets the ended flag, and a second
  call panics (\<open>Screen.End() called twice\<close>).
\<close>

theorem End_twice:
  assumes "screenInv s" "\<not> Ended s"
  shows "\<exists>t. End F s = Inr t \<and> Ended t \<and> End F t = Inl DoubleEnd"
  using assms by (simp add: End_eq screenInv_def End_Ended)

theorem End_twice_witness:
  "screenInv (NewScreen 80 24 :: nat Screen) \<and> \<not> Ended (NewScreen 80 24 :: nat Screen) \<and>
   (\<exists>t. End numericSGR (NewScreen 80 24) = Inr t \<and> Ended t \<and>
        End numericSGR t = Inl DoubleEnd)"
  using End_twice [of "NewScreen 80 24" numericSGR]
  by (simp add: NewScreen_inv) (simp add: NewScreen_def)

text \<open>
  C8. \<open>End\<close> is deterministic: two screens with the same lines, cursor position,
  attribute state, queued scrollback and ended flag get the same queued scrollback
  bytes from \<open>End\<close> (or the same panic), whatever their other fields are.
\<close>

theorem End_deterministic:
  assumes "lines s = lines t" "positionX s = positionX t" "positionY s = positionY t"
    "currentSGRs s = currentSGRs t" "QueuedScrollbackOutput s = QueuedScrollbackOutput t"
    "Ended s = Ended t"
  shows "map_sum id QueuedScrollbackOutput (End F s) = map_sum id QueuedScrollbackOutput (End F t)"
proof (cases "Ended s \<or> \<not> (0 \<le> positionY s \<and> positionY s < int (length (lines s)))")
  case True
  with assms show ?thesis
    by (auto simp: End_def currentLine_def fold_sendLine_eq Let_def)
next
  case False
  with assms show ?thesis
    by (simp add: End_eq)
qed

theorem End_deterministic_witness:
  "lines (NewScreen 80 24 :: nat Screen) = lines (NewScreen 132 50 :: nat Screen) \<and>
   maxHeight (NewScreen 80 24 :: nat Screen) \<noteq> maxHeight (NewScreen 132 50 :: nat Screen) \<and>
   map_sum id QueuedScrollbackOutput (End numericSGR (NewScreen 80 24)) =
   map_sum id QueuedScrollbackOutput (End numericSGR (NewScreen 132 50))"
  using End_deterministic [of "NewScreen 80 24" "NewScreen 132 50" numericSGR]
  by (simp add: NewScreen_def)




text \<open>
  C3, as amended. \<open>nextLine\<close> on a screen in a reachable state: with the cursor on a line
  that is not the last, it increments the cursor row; with the cursor on the last line
  it appends a new empty line; and when the line count then exceeds \<open>maxHeight\<close> it
  emits the first line to scrollback and removes it, while the cursor row keeps its
  value, so that the cursor then stands on the appended line.
\<close>

theorem nextLine_keeps_cursor_on_eviction:
  assumes "screenInv s"
  shows "(positionY s < int (length (lines s)) - 1 \<longrightarrow>
            nextLine F s = Inr (s\<lparr>positionY := positionY s + 1\<rparr>)) \<and>
         (\<not> positionY s < int (length (lines s)) - 1 \<and>
          int (length (lines s)) + 1 \<le> maxHeight s \<longrightarrow>
            (\<exists>t. nextLine F s = Inr t \<and> lines t = lines s @ [NewLine] \<and>
                 QueuedScrollbackOutput t = QueuedScrollbackOutput s)) \<and>
         (\<not> positionY s < int (length (lines s)) - 1 \<and>
          maxHeight s < int (length (lines s)) + 1 \<longrightarrow>
            nextLine F s =
              Inr (s\<lparr>lines := tl (lines s) @ [NewLine],
                     QueuedScrollbackOutput :=
                       QueuedScrollbackOutput s
                       @ (if QueuedScrollbackOutput s \<noteq> [] then [LF] else [])
                       @ lineBytes F (hd (lines s))\<rparr>) \<and>
            (tl (lines s) @ [NewLine]) ! nat (positionY s) = NewLine)"
proof -
  from assms obtain l rest where lr: "lines s = l # rest"
    by (cases "lines s") (auto simp: screenInv_def)
  have last: "\<not> positionY s < int (length (lines s)) - 1 \<Longrightarrow>
      nat (positionY s) = length rest"
    using assms lr by (auto simp: screenInv_def)
  show ?thesis
    using assms lr last
    by (auto simp: nextLine_def screenInv_def currentScreenHeight_def Let_def
        sendLineToScrollbackBuffer_eq nth_append)
qed

theorem nextLine_keeps_cursor_on_eviction_witness:
  "screenInv (NewScreen 80 1 :: nat Screen) \<and>
   nextLine numericSGR (NewScreen 80 1) = Inr (NewScreen 80 1) \<and>
   screenInv (NewScreen 80 2 :: nat Screen) \<and>
   map_sum id lines (nextLine numericSGR (NewScreen 80 2)) = Inr [NewLine, NewLine] \<and>
   map_sum id positionY
     (nextLine numericSGR ((NewScreen 80 2) \<lparr>lines := [NewLine, NewLine]\<rparr>)) = Inr 1"
proof -
  let ?s1 = "NewScreen 80 1 :: nat Screen"
  let ?s2 = "NewScreen 80 2 :: nat Screen"
  let ?s3 = "(NewScreen 80 2 :: nat Screen) \<lparr>lines := [NewLine, NewLine]\<rparr>"
  have i3: "screenInv ?s3" by (simp add: screenInv_def NewScreen_def)
  from nextLine_keeps_cursor_on_eviction [of ?s1 numericSGR, OF NewScreen_inv]
  have a: "nextLine numericSGR ?s1 = Inr ?s1"
    by (simp add: NewScreen_def lineBytes_def NewLine_def)
  from nextLine_keeps_cursor_on_eviction [of ?s2 numericSGR, OF NewScreen_inv]
  have b: "map_sum id lines (nextLine numericSGR ?s2) = Inr [NewLine, NewLine]"
    by (auto simp: NewScreen_def)
  from nextLine_keeps_cursor_on_eviction [of ?s3 numericSGR, OF i3]
  have c: "map_sum id positionY (nextLine numericSGR ?s3) = Inr 1"
    by (simp add: NewScreen_def)
  from a b c show ?thesis by (simp add: NewScreen_inv)
qed

text \<open>
  C3 as stated fails. On a screen of height 1 whose only line holds \<open>a\<close>, \<open>nextLine\<close>
  evicts that line and leaves the cursor row at 0: it is not decremented, and the
  line under the cursor is the appended empty line, not the line it was on.
\<close>

theorem nextLine_decrement_counterexample:
  "applyOps numericSGR [OutNormalCharacter 0x61] (NewScreen 80 1) =
     Inr \<lparr>lines = [\<lparr>characters = [\<lparr>rune = 0x61, sgr = [], extraEscapeSequences = []\<rparr>]\<rparr>],
      desiredWidth = 80, maxHeight = 1, positionX = 1, positionY = 0, Ended = False,
      QueuedScrollbackOutput = [], currentSGRs = None\<rparr> \<and>
   nextLine numericSGR
     \<lparr>lines = [\<lparr>characters = [\<lparr>rune = 0x61, sgr = [], extraEscapeSequences = []\<rparr>]\<rparr>],
      desiredWidth = 80, maxHeight = 1, positionX = 1, positionY = 0, Ended = False,
      QueuedScrollbackOutput = [], currentSGRs = None\<rparr> =
     Inr \<lparr>lines = [\<lparr>characters = []\<rparr>],
          desiredWidth = 80, maxHeight = 1, positionX = 1, positionY = 0, Ended = False,
          QueuedScrollbackOutput = ''a'', currentSGRs = None\<rparr> \<and>
   map_sum id positionY (nextLine numericSGR
     \<lparr>lines = [\<lparr>characters = [\<lparr>rune = 0x61, sgr = [], extraEscapeSequences = []\<rparr>]\<rparr>],
      desiredWidth = 80, maxHeight = 1, positionX = 1, positionY = 0, Ended = False,
      QueuedScrollbackOutput = [], currentSGRs = None\<rparr>) \<noteq>
     Inr (positionY
     \<lparr>lines = [\<lparr>characters = [\<lparr>rune = 0x61, sgr = [], extraEscapeSequences = []\<rparr>]\<rparr>],
      desiredWidth = 80, maxHeight = 1, positionX = 1, positionY = 0, Ended = False,
      QueuedScrollbackOutput = [], currentSGRs = None\<rparr> - 1) \<and>
   map_sum id (\<lambda>t. lines t ! nat (positionY t)) (nextLine numericSGR
     \<lparr>lines = [\<lparr>characters = [\<lparr>rune = 0x61, sgr = [], extraEscapeSequences = []\<rparr>]\<rparr>],
      desiredWidth = 80, maxHeight = 1, positionX = 1, positionY = 0, Ended = False,
      QueuedScrollbackOutput = [], currentSGRs = None\<rparr>) \<noteq>
     Inr (lines
     \<lparr>lines = [\<lparr>characters = [\<lparr>rune = 0x61, sgr = [], extraEscapeSequences = []\<rparr>]\<rparr>],
      desiredWidth = 80, maxHeight = 1, positionX = 1, positionY = 0, Ended = False,
      QueuedScrollbackOutput = [], currentSGRs = None\<rparr> ! 0)"
  by code_simp

text \<open>
  C4, at the failing input. After \<open>abc\<close> and a cursor move two columns to the left, the
  cursor of the screen is at column 1. \<open>End\<close> emits \<open>abc\<close>, which leaves the real cursor
  at column 3, and then \<open>ESC [ 2 C\<close>, two columns to the right; the movement that the
  claim describes, from column 3 to the cursor of the screen, is \<open>ESC [ 2 D\<close>.
\<close>

theorem End_cursor_moves_evaluated:
  "map_sum id QueuedScrollbackOutput
     (bindE (applyOps numericSGR
               [OutNormalCharacter 0x61, OutNormalCharacter 0x62, OutNormalCharacter 0x63,
                OutRelativeMoveCursorHorizontal (- 2)] (NewScreen 80 24))
            (End numericSGR)) = Inr (''abc'' @ ESC # ''[2C'') \<and>
   map_sum id (\<lambda>s. emitLines numericSGR (lines s) (QueuedScrollbackOutput s) @ specEndMoves s)
     (applyOps numericSGR
        [OutNormalCharacter 0x61, OutNormalCharacter 0x62, OutNormalCharacter 0x63,
         OutRelativeMoveCursorHorizontal (- 2)] (NewScreen 80 24)) = Inr (''abc'' @ ESC # ''[2D'')"
  by code_simp

text \<open>
  C5, at the failing input. On a screen of height 1 the input \<open>\na\n\<close> emits two
  lines: the empty first line, and then the line \<open>a\<close>. The second line is not the first
  line emitted, yet no line feed goes before it, since the queue is still empty: the
  queued scrollback is \<open>a\<close>.
\<close>

theorem sendLine_newline_evaluated:
  "map_sum id QueuedScrollbackOutput
     (applyOps numericSGR [NextLine, OutNormalCharacter 0x61, NextLine] (NewScreen 80 1))
   = Inr ''a''"
  by code_simp

text \<open>
  C7, as amended. For every screen in a reachable state and every \<open>n\<close> of at least 1,
  \<open>outDeleteLeft n\<close> repeats its step (decrement the cursor column, floored at 0, and
  write a space at the new position) up to \<open>n\<close> times and stops early at column 0: it
  runs the step \<open>min n (max 1 cursor_x)\<close> times, leaves the cursor at column
  \<open>max 0 (cursor_x - n)\<close>, leaves the current attributes of the screen, the cursor row
  and the queued output as they were, and every column from the new cursor column up to
  the old one (column 0 when the cursor was there) holds a space. The space is written
  as a normal character is: each of these cells is the cell that was there (the default
  cell beyond the end of the line) with the rune set to a space and with its attribute
  list cleared when no attribute has been selected yet, and otherwise with every current
  attribute added to it; every other cell of the line is as it was. The cursor column
  is a Go \<open>int\<close>, so it is at most \<open>maxInt\<close>.
\<close>

theorem outDeleteLeft_repeats:
  assumes "screenInv s" "positionX s \<le> maxInt" "1 \<le> n"
  shows "\<exists>t. outDeleteLeft F n s = Inr t \<and>
     repeatE (nat (min n (max 1 (positionX s)))) (deleteLeftStep F) s = Inr t \<and>
     positionX t = max 0 (positionX s - n) \<and> positionY t = positionY s \<and>
     currentSGRs t = currentSGRs s \<and>
     QueuedScrollbackOutput t = QueuedScrollbackOutput s \<and>
     (\<forall>x. max 0 (positionX s - n) \<le> x \<and> x < max 1 (positionX s) \<longrightarrow> spaceAt t x) \<and>
     (\<forall>x. 0 \<le> x \<longrightarrow> cellOrDefault t x =
        (if max 0 (positionX s - n) \<le> x \<and> x < max 1 (positionX s)
         then writeCell F (currentSGRs s) 0x20 (cellOrDefault s x)
         else cellOrDefault s x))"
proof -
  from assms(3) have "nat n = Suc (nat (n - 1))" "n = int (Suc (nat (n - 1)))"
    by simp_all
  then obtain k where k: "nat n = Suc k" "n = int (Suc k)"
    by blast
  from deleteLeftLoop_props [OF assms(1,2), of F k] show ?thesis
    unfolding outDeleteLeft_def k(1) unfolding k(2) by blast
qed

theorem outDeleteLeft_repeats_witness:
  "screenInv (\<lparr>lines = [\<lparr>characters = [\<lparr>rune = 0x61, sgr = [], extraEscapeSequences = []\<rparr>,
                               \<lparr>rune = 0x62, sgr = [], extraEscapeSequences = []\<rparr>,
                               \<lparr>rune = 0x63, sgr = [], extraEscapeSequences = []\<rparr>]\<rparr>],
       desiredWidth = 80, maxHeight = 24, positionX = 3, positionY = 0, Ended = False,
       QueuedScrollbackOutput = [], currentSGRs = Some [1]\<rparr> :: nat Screen) \<and>
   (3::int) \<le> maxInt \<and> (1::int) \<le> 5 \<and>
   (\<exists>t. outDeleteLeft numericSGR 5 \<lparr>lines = [\<lparr>characters = [\<lparr>rune = 0x61, sgr = [], extraEscapeSequences = []\<rparr>,
                               \<lparr>rune = 0x62, sgr = [], extraEscapeSequences = []\<rparr>,
                               \<lparr>rune = 0x63, sgr = [], extraEscapeSequences = []\<rparr>]\<rparr>],
       desiredWidth = 80, maxHeight = 24, positionX = 3, positionY = 0, Ended = False,
       QueuedScrollbackOutput = [], currentSGRs = Some [1]\<rparr> = Inr t \<and>
        repeatE 3 (deleteLeftStep numericSGR) \<lparr>lines = [\<lparr>characters = [\<lparr>rune = 0x61, sgr = [], extraEscapeSequences = []\<rparr>,
                               \<lparr>rune = 0x62, sgr = [], extraEscapeSequences = []\<rparr>,
                               \<lparr>rune = 0x63, sgr = [], extraEscapeSequences = []\<rparr>]\<rparr>],
       desiredWidth = 80, maxHeight = 24, positionX = 3, positionY = 0, Ended = False,
       QueuedScrollbackOutput = [], currentSGRs = Some [1]\<rparr> = Inr t \<and>
        positionX t = 0 \<and> spaceAt t 0 \<and> spaceAt t 1 \<and> spaceAt t 2 \<and>
        cellOrDefault t 0 = \<lparr>rune = 0x20, sgr = [1], extraEscapeSequences = []\<rparr> \<and>
        cellOrDefault t 2 = \<lparr>rune = 0x20, sgr = [1], extraEscapeSequences = []\<rparr> \<and>
        cellOrDefault t 3 = defaultCharacter)"
proof -
  let ?s = "\<lparr>lines = [\<lparr>characters = [\<lparr>rune = 0x61, sgr = [], extraEscapeSequences = []\<rparr>,
                               \<lparr>rune = 0x62, sgr = [], extraEscapeSequences = []\<rparr>,
                               \<lparr>rune = 0x63, sgr = [], extraEscapeSequences = []\<rparr>]\<rparr>],
       desiredWidth = 80, maxHeight = 24, positionX = 3, positionY = 0, Ended = False,
       QueuedScrollbackOutput = [], currentSGRs = Some [1]\<rparr> :: nat Screen"
  have inv: "screenInv ?s" by (simp add: screenInv_def)
  have m: "(3::int) \<le> maxInt" by (simp add: maxInt_def)
  have m': "positionX ?s \<le> maxInt" using m by simp
  have n: "(1::int) \<le> 5" by simp
  from outDeleteLeft_repeats [OF inv m' n, of numericSGR] obtain t where t:
    "outDeleteLeft numericSGR 5 ?s = Inr t"
    "repeatE (nat (min 5 (max 1 (positionX ?s)))) (deleteLeftStep numericSGR) ?s = Inr t"
    "positionX t = max 0 (positionX ?s - 5)"
    "\<forall>x. max 0 (positionX ?s - 5) \<le> x \<and> x < max 1 (positionX ?s) \<longrightarrow> spaceAt t x"
    "\<forall>x. 0 \<le> x \<longrightarrow> cellOrDefault t x =
        (if max 0 (positionX ?s - 5) \<le> x \<and> x < max 1 (positionX ?s)
         then writeCell numericSGR (currentSGRs ?s) 0x20 (cellOrDefault ?s x)
         else cellOrDefault ?s x)"
    by blast
  have c: "nat (min 5 (max 1 (positionX ?s))) = 3" by simp
  from t(4) have sp: "spaceAt t 0 \<and> spaceAt t 1 \<and> spaceAt t 2" by simp
  from t(2) have r: "repeatE 3 (deleteLeftStep numericSGR) ?s = Inr t" by (simp only: c)
  from t(3) have x: "positionX t = 0" by simp
  from sp have s0: "spaceAt t 0" and s1: "spaceAt t 1" and s2: "spaceAt t 2" by simp_all
  have v0: "cellOrDefault ?s 0 = \<lparr>rune = 0x61, sgr = [], extraEscapeSequences = []\<rparr>"
    and v2: "cellOrDefault ?s 2 = \<lparr>rune = 0x63, sgr = [], extraEscapeSequences = []\<rparr>"
    and v3: "cellOrDefault ?s 3 = defaultCharacter"
    by (simp_all add: cellOrDefault_def cellAt_def)
  have w: "writeCell numericSGR (Some [1]) 0x20 \<lparr>rune = r, sgr = [], extraEscapeSequences = []\<rparr>
      = \<lparr>rune = 0x20, sgr = [1], extraEscapeSequences = []\<rparr>" for r
    by (simp add: writeCell_def numericSGR_def)
  from t(5) [THEN spec, of 0]
  have "cellOrDefault t 0 = writeCell numericSGR (Some [1]) 0x20 (cellOrDefault ?s 0)"
    by simp
  then have c0: "cellOrDefault t 0 = \<lparr>rune = 0x20, sgr = [1], extraEscapeSequences = []\<rparr>"
    by (simp only: v0 w)
  from t(5) [THEN spec, of 2]
  have "cellOrDefault t 2 = writeCell numericSGR (Some [1]) 0x20 (cellOrDefault ?s 2)"
    by simp
  then have c2: "cellOrDefault t 2 = \<lparr>rune = 0x20, sgr = [1], extraEscapeSequences = []\<rparr>"
    by (simp only: v2 w)
  from t(5) [THEN spec, of 3]
  have "cellOrDefault t 3 = cellOrDefault ?s 3"
    by simp
  then have c3: "cellOrDefault t 3 = defaultCharacter"
    by (simp only: v3)
  show ?thesis
    by (intro conjI exI [of _ t]) (rule inv m n t(1) r x s0 s1 s2 c0 c2 c3)+
qed

text \<open>
  C7 as stated fails. After \<open>a\<close> has been written with no attribute selected and
  attribute 1 has then been selected, the cell at column 0 has the empty attribute
  list; \<open>outDeleteLeft 1\<close> writes the space there and the cell's attribute list
  becomes the list of attribute 1.
\<close>

theorem outDeleteLeft_sgr_counterexample:
  "applyOps numericSGR
     [OutNormalCharacter 0x61, OutSelectGraphicRenditionAttribute 1] (NewScreen 80 24) =
     Inr \<lparr>lines = [\<lparr>characters = [\<lparr>rune = 0x61, sgr = [], extraEscapeSequences = []\<rparr>]\<rparr>],
          desiredWidth = 80, maxHeight = 24, positionX = 1, positionY = 0, Ended = False,
          QueuedScrollbackOutput = [], currentSGRs = Some [1]\<rparr> \<and>
   outDeleteLeft numericSGR 1
     \<lparr>lines = [\<lparr>characters = [\<lparr>rune = 0x61, sgr = [], extraEscapeSequences = []\<rparr>]\<rparr>],
      desiredWidth = 80, maxHeight = 24, positionX = 1, positionY = 0, Ended = False,
      QueuedScrollbackOutput = [], currentSGRs = Some [1]\<rparr> =
     Inr \<lparr>lines = [\<lparr>characters = [\<lparr>rune = 0x20, sgr = [1], extraEscapeSequences = []\<rparr>]\<rparr>],
          desiredWidth = 80, maxHeight = 24, positionX = 0, positionY = 0, Ended = False,
          QueuedScrollbackOutput = [], currentSGRs = Some [1]\<rparr> \<and>
   [] \<noteq> [1::nat]"
  by code_simp

end
